theory Spec2Isabelle
  imports Complex_Main "HOL-Library.Word" "HOL-Library.Sublist"
begin

section \<open>PageMind: the ingestion and retrieval pipeline of \<^verbatim>\<open>src/server/index.js\<close>\<close>

subsection \<open>JavaScript values\<close>

text \<open>
  A JavaScript string is a sequence of 16-bit code units: \<^verbatim>\<open>length\<close> counts them and
  \<^verbatim>\<open>slice\<close> cuts between them. String literals of the source are ASCII apart from the
  emoji of the console messages, which are kept as constructors of the console log below.
\<close>

type_synonym jsstring = "16 word list"

definition utf16 :: "string \<Rightarrow> jsstring" where
  "utf16 s = map (\<lambda>c. of_char c) s"

text \<open>The exceptions that the program itself or a collaborator can raise.\<close>

datatype error = Error string | TypeError string

text \<open>
  How a call ends: it returns a value, it throws, or it never returns. The last case is
  only there for the loop of \<^verbatim>\<open>splitIntoChunks\<close>, whose step may be zero.
\<close>

datatype 'a completion = Return 'a | Throw error | Diverge

text \<open>
  \<^verbatim>\<open>text.slice(start, end)\<close> for \<open>0 \<le> start \<le> end\<close>; the end is clipped to the length of
  the string, as \<^const>\<open>take\<close> does.
\<close>

definition slice :: "jsstring \<Rightarrow> nat \<Rightarrow> nat \<Rightarrow> jsstring" where
  "slice text start end = take (end - start) (drop start text)"

text \<open>\<^verbatim>\<open>s.startsWith(p)\<close>, from position 0.\<close>

definition startsWith :: "jsstring \<Rightarrow> jsstring \<Rightarrow> bool" where
  "startsWith s p = (take (length p) s = p)"

subsection \<open>The chunker\<close>

text \<open>
  \<^verbatim>\<open>Math.ceil(text.length / numChunks)\<close>. A string has fewer than \<open>2^53\<close> code units, and
  for such a numerator and an integer denominator the ceiling of the double quotient is
  the ceiling of the exact quotient.
\<close>

definition Math_ceil_div :: "nat \<Rightarrow> int \<Rightarrow> nat" where
  "Math_ceil_div a b = nat \<lceil>real a / real_of_int b\<rceil>"

text \<open>
  \<^verbatim>\<open>for (let i = 0; i < text.length; i += chunkSize) chunks.push(text.slice(i, i + chunkSize))\<close>.
  With \<open>chunkSize = 0\<close> and a non-empty text the loop never ends, so the loop is a partial
  function and \<open>None\<close> is "does not return".
\<close>

partial_function (option) chunk_loop ::
  "jsstring \<Rightarrow> nat \<Rightarrow> nat \<Rightarrow> jsstring list \<Rightarrow> jsstring list option" where
  "chunk_loop text chunkSize i chunks =
     (if i < length text
      then chunk_loop text chunkSize (i + chunkSize) (chunks @ [slice text i (i + chunkSize)])
      else Some chunks)"

declare chunk_loop.simps [code]

definition splitIntoChunks :: "jsstring \<Rightarrow> int \<Rightarrow> jsstring list completion" where
  "splitIntoChunks text numChunks =
     (if numChunks \<le> 0 then Throw (Error ''Number of chunks must be greater than zero'')
      else (case chunk_loop text (Math_ceil_div (length text) numChunks) 0 [] of
              None \<Rightarrow> Diverge
            | Some chunks \<Rightarrow> Return chunks))"

subsection \<open>The identity scheme\<close>

text \<open>
  \<^verbatim>\<open>String(n)\<close> in a template literal. For a non-negative integer \<open>n \<le> 2^53\<close> it is the decimal
  numeral of \<open>n\<close>, which is what \<open>Number_toString\<close> computes. A larger number is printed with
  the shortest digits that read back as the same double (\<open>2^57\<close> as \<^verbatim>\<open>144115188075855870\<close>)
  and from \<open>10^21\<close> on in exponent notation (\<^verbatim>\<open>1e+21\<close>): \<open>Number_toString\<close> does not describe
  the code there, and what is proved of the identifier format is proved for indices up to
  \<open>2^53\<close>. The indices that \<^verbatim>\<open>ingest\<close> passes are array indices of at most 100 chunks.
\<close>

definition digit :: "nat \<Rightarrow> 16 word" where
  "digit d = of_nat (48 + d)"

function Number_toString :: "nat \<Rightarrow> jsstring" where
  "Number_toString n =
     (if n < 10 then [digit n] else Number_toString (n div 10) @ [digit (n mod 10)])"
  by pat_completeness auto
termination
  by (relation "measure (\<lambda>n. n)") auto

declare Number_toString.simps [simp del]

text \<open>\<^verbatim>\<open>`${url}_chunk_${chunkIndex}`\<close>\<close>

definition uniqueId :: "jsstring \<Rightarrow> nat \<Rightarrow> jsstring" where
  "uniqueId url chunkIndex = url @ utf16 ''_chunk_'' @ Number_toString chunkIndex"

subsection \<open>The store, the collaborators and the console\<close>

text \<open>
  A property of a stored metadata object holds a string, or \<^verbatim>\<open>null\<close>, or is missing
  (\<^verbatim>\<open>undefined\<close>).
\<close>

datatype jsval = Undefined | Null | Str jsstring

type_synonym embedding = "real list"

record metadata =
  md_url :: jsval
  md_body :: jsval
  md_head :: jsval
  md_chunkIndex :: nat

record indexed_record =
  rec_id :: jsstring
  rec_embedding :: embedding
  rec_metadata :: metadata

text \<open>What \<^verbatim>\<open>collection.get\<close> answers: parallel arrays \<^verbatim>\<open>ids\<close> and \<^verbatim>\<open>metadatas\<close>.\<close>

record get_result =
  res_ids :: "jsstring list"
  res_metadatas :: "metadata list"

text \<open>
  What \<^verbatim>\<open>cheerio.load(data)\<close> exposes of a fetched page: \<^verbatim>\<open>$("head").html()\<close> and
  \<^verbatim>\<open>$("body").html()\<close> (\<^verbatim>\<open>null\<close> when the element is missing) and the \<^verbatim>\<open>href\<close> attribute
  of every anchor (\<^verbatim>\<open>undefined\<close> when the attribute is missing).
\<close>

record document =
  head_html :: "jsstring option"
  body_html :: "jsstring option"
  hrefs :: "jsstring option list"

record message =
  role :: jsstring
  content :: jsstring

text \<open>
  The world outside the process: the records of the collection \<^verbatim>\<open>PAGEMIND_COLLECTION_1\<close>
  and whatever else the collaborators depend on (the web, the OpenAI service).
\<close>

record 'x world =
  store :: "indexed_record list"
  ext :: 'x

text \<open>
  The collaborators (axios with cheerio, the OpenAI client, the Chroma collection) are
  parameters of the program. A call settles with a value or is rejected with an error,
  and may change the world.
\<close>

record 'x collab =
  axios_get :: "jsstring \<Rightarrow> 'x world \<Rightarrow> (error + document) \<times> 'x world"
  embeddings_create :: "jsstring \<Rightarrow> 'x world \<Rightarrow> (error + embedding list) \<times> 'x world"
  getOrCreateCollection :: "'x world \<Rightarrow> (error + unit) \<times> 'x world"
  collection_get :: "jsstring list option \<Rightarrow> 'x world \<Rightarrow> (error + get_result) \<times> 'x world"
  collection_add :: "indexed_record \<Rightarrow> 'x world \<Rightarrow> (error + unit) \<times> 'x world"
  collection_delete :: "jsstring list \<Rightarrow> 'x world \<Rightarrow> (error + unit) \<times> 'x world"
  collection_query :: "embedding \<Rightarrow> nat \<Rightarrow> 'x world \<Rightarrow> (error + metadata list list) \<times> 'x world"
  completions_create :: "message list \<Rightarrow> 'x world \<Rightarrow> (error + jsstring list) \<times> 'x world"

text \<open>The lines written by \<^verbatim>\<open>console.log\<close> and \<^verbatim>\<open>console.error\<close>, one constructor per message.\<close>

datatype log =
    Ingesting jsstring
  | Body_content_is_empty jsstring
  | Split_body_into nat
  | Ingesting_successful jsstring
  | Error_ingesting jsstring error
  | Embedding_already_exists jsstring
  | Added_embedding jsstring
  | Deleted_embeddings nat jsstring
  | Chat_reply jsstring jsval

record 'x state =
  world :: "'x world"
  console :: "log list"

type_synonym ('x, 'a) async = "'x state \<Rightarrow> 'a completion \<times> 'x state"

definition returns :: "'a \<Rightarrow> ('x, 'a) async" where
  "returns v s = (Return v, s)"

definition throws :: "error \<Rightarrow> ('x, 'a) async" where
  "throws e s = (Throw e, s)"

text \<open>A synchronous call inside an async function: its completion, the state untouched.\<close>

definition sync :: "'a completion \<Rightarrow> ('x, 'a) async" where
  "sync c s = (c, s)"

text \<open>\<^verbatim>\<open>const v = await m; k(v)\<close>: a rejection or a divergence of \<open>m\<close> ends the function.\<close>

definition await :: "('x, 'a) async \<Rightarrow> ('a \<Rightarrow> ('x, 'b) async) \<Rightarrow> ('x, 'b) async" where
  "await m k s =
     (case m s of
        (Return v, s') \<Rightarrow> k v s'
      | (Throw e, s') \<Rightarrow> (Throw e, s')
      | (Diverge, s') \<Rightarrow> (Diverge, s'))"

text \<open>\<^verbatim>\<open>try { m } catch (error) { h(error) }\<close>\<close>

definition try_catch :: "('x, 'a) async \<Rightarrow> (error \<Rightarrow> ('x, 'a) async) \<Rightarrow> ('x, 'a) async" where
  "try_catch m h s =
     (case m s of
        (Throw e, s') \<Rightarrow> h e s'
      | (Return v, s') \<Rightarrow> (Return v, s')
      | (Diverge, s') \<Rightarrow> (Diverge, s'))"

text \<open>A call of a collaborator.\<close>

definition call :: "('x world \<Rightarrow> (error + 'a) \<times> 'x world) \<Rightarrow> ('x, 'a) async" where
  "call f s =
     (case f (world s) of
        (Inr v, w) \<Rightarrow> (Return v, s\<lparr>world := w\<rparr>)
      | (Inl e, w) \<Rightarrow> (Throw e, s\<lparr>world := w\<rparr>))"

definition console_log :: "log \<Rightarrow> ('x, unit) async" where
  "console_log l s = (Return (), s\<lparr>console := console s @ [l]\<rparr>)"

text \<open>
  Modelled from the spec: the Chroma collection, a library that is not part of the
  repository, after the vector store contract of the specification: \<^verbatim>\<open>get\<close> with ids
  answers the records with these ids and without ids all records, \<^verbatim>\<open>add\<close> inserts a
  record, \<^verbatim>\<open>delete\<close> removes the records with the given ids. What \<^verbatim>\<open>add\<close> does with an
  id that is already stored is left to the store, so \<open>follows_contract\<close> says nothing
  about it.
\<close>

definition chroma_getOrCreateCollection :: "'x world \<Rightarrow> (error + unit) \<times> 'x world" where
  "chroma_getOrCreateCollection w = (Inr (), w)"

definition chroma_get :: "jsstring list option \<Rightarrow> 'x world \<Rightarrow> (error + get_result) \<times> 'x world" where
  "chroma_get ids w =
     (let found = (case ids of
                     None \<Rightarrow> store w
                   | Some wanted \<Rightarrow> filter (\<lambda>r. rec_id r \<in> set wanted) (store w))
      in (Inr \<lparr>res_ids = map rec_id found, res_metadatas = map rec_metadata found\<rparr>, w))"

definition chroma_add :: "indexed_record \<Rightarrow> 'x world \<Rightarrow> (error + unit) \<times> 'x world" where
  "chroma_add r w = (Inr (), w\<lparr>store := store w @ [r]\<rparr>)"

definition chroma_delete :: "jsstring list \<Rightarrow> 'x world \<Rightarrow> (error + unit) \<times> 'x world" where
  "chroma_delete ids w = (Inr (), w\<lparr>store := filter (\<lambda>r. rec_id r \<notin> set ids) (store w)\<rparr>)"

definition follows_contract :: "'x collab \<Rightarrow> bool" where
  "follows_contract C \<longleftrightarrow>
     getOrCreateCollection C = chroma_getOrCreateCollection \<and>
     collection_get C = chroma_get \<and>
     collection_delete C = chroma_delete \<and>
     (\<forall>r w. rec_id r \<notin> rec_id ` set (store w) \<longrightarrow> collection_add C r w = chroma_add r w)"

subsection \<open>scrapeWebpage and generateVectorEmbeddings\<close>

text \<open>\<^verbatim>\<open>set.add(x)\<close> on a \<^verbatim>\<open>Set\<close>, which keeps insertion order.\<close>

definition Set_add :: "jsstring list \<Rightarrow> jsstring \<Rightarrow> jsstring list" where
  "Set_add xs x = (if x \<in> set xs then xs else xs @ [x])"

text \<open>
  The callback of \<^verbatim>\<open>$("a").each\<close>, on the anchors in document order, with the two sets
  \<^verbatim>\<open>internalLinks\<close> and \<^verbatim>\<open>externalLinks\<close>. \<^verbatim>\<open>link.startsWith\<close> on a missing \<^verbatim>\<open>href\<close> is a
  TypeError.
\<close>

fun each_link :: "jsstring option list \<Rightarrow> jsstring list \<times> jsstring list
    \<Rightarrow> error + jsstring list \<times> jsstring list" where
  "each_link [] (internalLinks, externalLinks) = Inr (internalLinks, externalLinks)"
| "each_link (link # rest) (internalLinks, externalLinks) =
     (if link = Some (utf16 ''/'') then each_link rest (internalLinks, externalLinks)
      else (case link of
              None \<Rightarrow> Inl (TypeError ''Cannot read properties of undefined (reading startsWith)'')
            | Some l \<Rightarrow>
                if startsWith l (utf16 ''https'') \<or> startsWith l (utf16 ''http'')
                then each_link rest (internalLinks, Set_add externalLinks l)
                else each_link rest (Set_add internalLinks l, externalLinks)))"

record page =
  metaData :: "jsstring option"
  page_body :: "jsstring option"
  internalLinks :: "jsstring list"
  externalLinks :: "jsstring list"

definition scrapeWebpage :: "'x collab \<Rightarrow> jsstring \<Rightarrow> ('x, page) async" where
  "scrapeWebpage C url =
     await (call (axios_get C url)) (\<lambda>doc.
       (case each_link (hrefs doc) ([], []) of
          Inl e \<Rightarrow> throws e
        | Inr (internal, external) \<Rightarrow>
            returns \<lparr>metaData = head_html doc, page_body = body_html doc,
                     internalLinks = internal, externalLinks = external\<rparr>))"

text \<open>\<^verbatim>\<open>embedding.data[0].embedding\<close>: reading it from an empty \<^verbatim>\<open>data\<close> is a TypeError.\<close>

definition generateVectorEmbeddings :: "'x collab \<Rightarrow> jsstring \<Rightarrow> ('x, embedding) async" where
  "generateVectorEmbeddings C txt =
     await (call (embeddings_create C txt)) (\<lambda>data.
       (case data of
          [] \<Rightarrow> throws (TypeError ''Cannot read properties of undefined (reading embedding)'')
        | e # _ \<Rightarrow> returns e))"

subsection \<open>addToVectorDB, isUrlProcessed, deleteEmbeddingsForUrl\<close>

text \<open>
  The first parameter of \<^verbatim>\<open>addToVectorDB\<close> is destructured as
  \<^verbatim>\<open>{ embedding, url, body = '', head }\<close>: a property that the caller did not pass is
  \<^verbatim>\<open>undefined\<close> (\<open>None\<close>), and \<^verbatim>\<open>body\<close> then defaults to the empty string. The second
  parameter, \<^verbatim>\<open>chunkIndex = 0\<close>, is always passed by \<^verbatim>\<open>ingest\<close>, the only caller.
\<close>

record add_args =
  arg_embedding :: embedding
  arg_url :: jsstring
  arg_body :: "jsstring option"
  arg_head :: "jsstring option"

definition addToVectorDB :: "'x collab \<Rightarrow> add_args \<Rightarrow> nat \<Rightarrow> ('x, unit) async" where
  "addToVectorDB C args chunkIndex =
     (let body = (case arg_body args of None \<Rightarrow> [] | Some b \<Rightarrow> b) in
      await (call (getOrCreateCollection C)) (\<lambda>collection.
        (let uid = uniqueId (arg_url args) chunkIndex in
         await (call (collection_get C (Some [uid]))) (\<lambda>existingEmbedding.
           if length (res_ids existingEmbedding) > 0
           then console_log (Embedding_already_exists uid)
           else await (call (collection_add C
                        \<lparr>rec_id = uid,
                         rec_embedding = arg_embedding args,
                         rec_metadata =
                           \<lparr>md_url = Str (arg_url args),
                            md_body = Str body,
                            md_head = (case arg_head args of None \<Rightarrow> Undefined | Some h \<Rightarrow> Str h),
                            md_chunkIndex = chunkIndex\<rparr>\<rparr>))
                  (\<lambda>_. console_log (Added_embedding uid))))))"

definition isUrlProcessed :: "'x collab \<Rightarrow> jsstring \<Rightarrow> ('x, bool) async" where
  "isUrlProcessed C url =
     await (call (getOrCreateCollection C)) (\<lambda>collection.
       await (call (collection_get C None)) (\<lambda>embeddings.
         returns (list_ex (\<lambda>uid. startsWith uid url) (res_ids embeddings))))"

definition deleteEmbeddingsForUrl :: "'x collab \<Rightarrow> jsstring \<Rightarrow> ('x, unit) async" where
  "deleteEmbeddingsForUrl C url =
     await (call (getOrCreateCollection C)) (\<lambda>collection.
       await (call (collection_get C None)) (\<lambda>embeddings.
         (let idsToDelete = filter (\<lambda>uid. startsWith uid url) (res_ids embeddings) in
          if length idsToDelete > 0
          then await (call (collection_delete C idsToDelete))
                 (\<lambda>_. console_log (Deleted_embeddings (length idsToDelete) url))
          else returns ())))"

subsection \<open>ingest\<close>

text \<open>
  The loop over the chunks. \<^verbatim>\<open>ingest\<close> passes \<^verbatim>\<open>{ embedding, url, metaData, body: chunk }\<close>:
  the head of the page travels under the key \<^verbatim>\<open>metaData\<close>, which \<^verbatim>\<open>addToVectorDB\<close> does not
  read, so its \<^verbatim>\<open>head\<close> is \<^verbatim>\<open>undefined\<close>.
\<close>

function ingest_loop :: "'x collab \<Rightarrow> jsstring \<Rightarrow> jsstring list \<Rightarrow> nat \<Rightarrow> ('x, unit) async" where
  "ingest_loop C url bodyChunks i s =
     (if i < length bodyChunks
      then (case generateVectorEmbeddings C (bodyChunks ! i) s of
              (Return chunkedBodyEmbeddings, s1) \<Rightarrow>
                (case addToVectorDB C
                        \<lparr>arg_embedding = chunkedBodyEmbeddings, arg_url = url,
                         arg_body = Some (bodyChunks ! i), arg_head = None\<rparr> i s1 of
                   (Return _, s2) \<Rightarrow> ingest_loop C url bodyChunks (i + 1) s2
                 | (Throw e, s2) \<Rightarrow> (Throw e, s2)
                 | (Diverge, s2) \<Rightarrow> (Diverge, s2))
            | (Throw e, s1) \<Rightarrow> (Throw e, s1)
            | (Diverge, s1) \<Rightarrow> (Diverge, s1))
      else (Return (), s))"
  by pat_completeness auto
termination
  by (relation "measure (\<lambda>(C, url, bodyChunks, i, s). length bodyChunks - i)") auto

text \<open>The rest of the \<^verbatim>\<open>try\<close> block once \<^verbatim>\<open>scrapeWebpage\<close> has answered; \<^verbatim>\<open>!body\<close> holds of
  \<^verbatim>\<open>null\<close> and of the empty string.\<close>

definition after_scrape :: "'x collab \<Rightarrow> jsstring \<Rightarrow> page \<Rightarrow> ('x, unit) async" where
  "after_scrape C url p =
     (case page_body p of
        None \<Rightarrow> console_log (Body_content_is_empty url)
      | Some body \<Rightarrow>
          if body = [] then console_log (Body_content_is_empty url)
          else await (sync (splitIntoChunks body 100)) (\<lambda>bodyChunks.
                 await (console_log (Split_body_into (length bodyChunks))) (\<lambda>_.
                   await (ingest_loop C url bodyChunks 0) (\<lambda>_.
                     console_log (Ingesting_successful url)))))"

text \<open>The \<^verbatim>\<open>try\<close> block of \<^verbatim>\<open>ingest\<close>, and \<^verbatim>\<open>ingest\<close> with its \<^verbatim>\<open>catch\<close>.\<close>

definition ingest_try :: "'x collab \<Rightarrow> jsstring \<Rightarrow> ('x, unit) async" where
  "ingest_try C url =
     await (console_log (Ingesting url)) (\<lambda>_.
       await (deleteEmbeddingsForUrl C url) (\<lambda>_.
         await (scrapeWebpage C url) (after_scrape C url)))"

definition ingest :: "'x collab \<Rightarrow> jsstring \<Rightarrow> ('x, unit) async" where
  "ingest C url =
     try_catch (ingest_try C url) (\<lambda>error. console_log (Error_ingesting url error))"

subsection \<open>chat\<close>

text \<open>The code units that \<^verbatim>\<open>String.prototype.trim\<close> strips: white space and line terminators.\<close>

definition isWhiteSpace :: "16 word \<Rightarrow> bool" where
  "isWhiteSpace c \<longleftrightarrow>
     c \<in> {0x0009, 0x000A, 0x000B, 0x000C, 0x000D, 0x0020, 0x00A0, 0x1680,
          0x2028, 0x2029, 0x202F, 0x205F, 0x3000, 0xFEFF}
     \<or> (0x2000 \<le> c \<and> c \<le> 0x200A)"

definition trim :: "jsstring \<Rightarrow> jsstring" where
  "trim s = rev (dropWhile isWhiteSpace (rev (dropWhile isWhiteSpace s)))"

text \<open>"Empty or whitespace-only", in the words of the specification.\<close>

definition whitespace_only :: "jsstring \<Rightarrow> bool" where
  "whitespace_only s \<longleftrightarrow> (\<forall>c \<in> set s. isWhiteSpace c)"

text \<open>
  The predicate of both filters, \<^verbatim>\<open>e => e.trim() !== '' && !!e\<close>: \<^verbatim>\<open>e.trim()\<close> is evaluated
  first, and on \<^verbatim>\<open>undefined\<close> or \<^verbatim>\<open>null\<close> it is a TypeError.
\<close>

fun nonblank :: "jsval \<Rightarrow> error + bool" where
  "nonblank (Str e) = Inr (trim e \<noteq> [] \<and> e \<noteq> [])"
| "nonblank Undefined = Inl (TypeError ''Cannot read properties of undefined (reading trim)'')"
| "nonblank Null = Inl (TypeError ''Cannot read properties of null (reading trim)'')"

text \<open>\<^verbatim>\<open>xs.filter(p)\<close> with a predicate that may throw: the first throw ends the filter.\<close>

fun filter_js :: "(jsval \<Rightarrow> error + bool) \<Rightarrow> jsval list \<Rightarrow> jsval list completion" where
  "filter_js p [] = Return []"
| "filter_js p (e # es) =
     (case p e of
        Inl err \<Rightarrow> Throw err
      | Inr keep \<Rightarrow>
          (case filter_js p es of
             Return kept \<Rightarrow> Return (if keep then e # kept else kept)
           | Throw err \<Rightarrow> Throw err
           | Diverge \<Rightarrow> Diverge))"

text \<open>\<^verbatim>\<open>xs.join(', ')\<close>: \<^verbatim>\<open>undefined\<close> and \<^verbatim>\<open>null\<close> elements are joined as empty strings.\<close>

fun toString :: "jsval \<Rightarrow> jsstring" where
  "toString (Str s) = s"
| "toString Undefined = []"
| "toString Null = []"

fun join :: "jsval list \<Rightarrow> jsstring" where
  "join [] = []"
| "join [e] = toString e"
| "join (e # es) = toString e @ utf16 '', '' @ join es"

definition system_message :: message where
  "system_message =
     \<lparr>role = utf16 ''system'',
      content = utf16 (''You are an AI support agent, expert in providing support to users on behalf of a webpage. ''
                       @ ''Given the context about page content, reply the user accordingly.'')\<rparr>"

text \<open>The template literal of the user message, with its line breaks and indentation.\<close>

definition user_message :: "jsstring \<Rightarrow> jsval list \<Rightarrow> jsval list \<Rightarrow> message" where
  "user_message question url body =
     \<lparr>role = utf16 ''user'',
      content = utf16 ''Query: '' @ question @ [0x0A, 0x0A, 0x0A] @ replicate 17 0x20
                @ utf16 ''URl: '' @ join url @ [0x0A, 0x0A, 0x0A] @ replicate 17 0x20
                @ utf16 ''Retrieved conext: '' @ join body\<rparr>"

definition chat :: "'x collab \<Rightarrow> jsstring \<Rightarrow> ('x, unit) async" where
  "chat C question =
     await (generateVectorEmbeddings C question) (\<lambda>questionEmbedding.
       await (call (getOrCreateCollection C)) (\<lambda>collection.
         await (call (collection_query C questionEmbedding 3)) (\<lambda>metadatas.
           (case metadatas of
              [] \<Rightarrow> throws (TypeError ''Cannot read properties of undefined (reading map)'')
            | first # _ \<Rightarrow>
                await (sync (filter_js nonblank (map md_body first))) (\<lambda>body.
                  await (sync (filter_js nonblank (map md_url first))) (\<lambda>url.
                    await (call (completions_create C [system_message, user_message question url body]))
                      (\<lambda>choices.
                        (case choices of
                           [] \<Rightarrow> throws (TypeError ''Cannot read properties of undefined (reading message)'')
                         | answer # _ \<Rightarrow>
                             console_log (Chat_reply answer
                               (case url of [] \<Rightarrow> Undefined | u # _ \<Rightarrow> u))))))))))"

subsection \<open>A collaborator set for concrete runs\<close>

text \<open>
  The store of the contract above, a web that answers \<open>fetch url\<close>, an embedding service
  that answers \<open>vectors txt\<close>, a nearest-neighbour query that answers \<open>found\<close> and a
  generative service that answers \<open>answer messages\<close>.
\<close>

definition chroma_collab ::
  "(jsstring \<Rightarrow> error + document) \<Rightarrow> (jsstring \<Rightarrow> error + embedding list)
    \<Rightarrow> (error + metadata list list) \<Rightarrow> (message list \<Rightarrow> error + jsstring list) \<Rightarrow> unit collab" where
  "chroma_collab fetch vectors found answer =
     \<lparr>axios_get = (\<lambda>url w. (fetch url, w)),
      embeddings_create = (\<lambda>txt w. (vectors txt, w)),
      getOrCreateCollection = chroma_getOrCreateCollection,
      collection_get = chroma_get,
      collection_add = chroma_add,
      collection_delete = chroma_delete,
      collection_query = (\<lambda>e n w. (found, w)),
      completions_create = (\<lambda>messages w. (answer messages, w))\<rparr>"

text \<open>
  The same with an embedding service that answers one fixed vector and a generative
  service that echoes the content of the user message, so that the console line of
  \<^verbatim>\<open>chat\<close> shows the message that was composed.
\<close>

definition echo_collab :: "metadata list list \<Rightarrow> unit collab" where
  "echo_collab found =
     chroma_collab (\<lambda>url. Inl (Error ''offline'')) (\<lambda>txt. Inr [[1]]) (Inr found)
       (\<lambda>messages. Inr (map content (tl messages)))"

section \<open>Properties of the chunker\<close>

lemma Math_ceil_div_code [code]: "Math_ceil_div a b = nat (- ((- int a) div b))"
  unfolding Math_ceil_div_def
  using ceiling_divide_eq_div [of "int a" b, where ?'a = real] by simp

lemma Math_ceil_div_nat: "Math_ceil_div a (int b) = (a + b - 1) div b"
proof (cases "b = 0")
  case True
  then show ?thesis by (simp add: Math_ceil_div_def)
next
  case False
  have "\<lceil>real a / real b\<rceil> = int ((a + b - 1) div b)"
  proof (rule ceiling_unique)
    have le: "((a + b - 1) div b) * b \<le> a + b - 1"
      by simp
    have "a + b - 1 < ((a + b - 1) div b) * b + b"
      using False by (metis bot_nat_0.not_eq_extremum div_mult_mod_eq
          mod_less_divisor nat_add_left_cancel_less)
    then have "a \<le> ((a + b - 1) div b) * b"
      using False by linarith
    then have "real a \<le> real ((a + b - 1) div b) * real b"
      by (metis of_nat_le_iff of_nat_mult)
    then show "real a / real b \<le> of_int (int ((a + b - 1) div b))"
      using False by (simp add: divide_le_eq)
    from le have "((a + b - 1) div b) * b < a + b"
      using False by linarith
    then have "real ((a + b - 1) div b) * real b < real a + real b"
      by (metis of_nat_less_iff of_nat_mult of_nat_add)
    then have "(real ((a + b - 1) div b) - 1) * real b < real a"
      by (simp add: algebra_simps)
    then show "of_int (int ((a + b - 1) div b)) - 1 < real a / real b"
      using False by (simp add: less_divide_eq)
  qed
  then show ?thesis
    by (simp add: Math_ceil_div_def)
qed

lemma Math_ceil_div_pos: "0 < a \<Longrightarrow> 0 < b \<Longrightarrow> 0 < Math_ceil_div a b"
  unfolding Math_ceil_div_def by simp

lemma offset_in_text: "0 < sz \<Longrightarrow> k * sz < len \<longleftrightarrow> k < (len + sz - 1) div (sz::nat)"
proof -
  assume sz: "0 < sz"
  have "k < (len + sz - 1) div sz \<longleftrightarrow> Suc k \<le> (len + sz - 1) div sz"
    by auto
  also have "\<dots> \<longleftrightarrow> Suc k * sz \<le> len + sz - 1"
    using sz by (simp only: less_eq_div_iff_mult_less_eq)
  also have "\<dots> \<longleftrightarrow> k * sz < len"
    using sz by auto
  finally show ?thesis by simp
qed

text \<open>The loop, started at the \<open>k\<close>-th offset, appends the slices at the offsets that remain.\<close>

lemma chunk_loop_slices:
  assumes sz: "0 < sz"
  shows "chunk_loop text sz (k * sz) acc =
           Some (acc @ map (\<lambda>j. slice text (j * sz) (j * sz + sz))
                        [k ..< (length text + sz - 1) div sz])"
proof (induction "(length text + sz - 1) div sz - k" arbitrary: k acc)
  case 0
  then have "\<not> k < (length text + sz - 1) div sz" by simp
  then have "\<not> k * sz < length text"
    using offset_in_text [OF sz] by simp
  then show ?case
    using 0 by (subst chunk_loop.simps) simp
next
  case (Suc d)
  then have k: "k < (length text + sz - 1) div sz" by simp
  then have lt: "k * sz < length text"
    using offset_in_text [OF sz] by simp
  have d: "d = (length text + sz - 1) div sz - Suc k"
    using Suc.hyps(2) by simp
  have "chunk_loop text sz (k * sz) acc =
          chunk_loop text sz (Suc k * sz) (acc @ [slice text (k * sz) (k * sz + sz)])"
    using lt by (subst chunk_loop.simps) (simp add: add.commute)
  also have "\<dots> = Some ((acc @ [slice text (k * sz) (k * sz + sz)]) @
                       map (\<lambda>j. slice text (j * sz) (j * sz + sz))
                         [Suc k ..< (length text + sz - 1) div sz])"
    by (rule Suc.hyps(1) [OF d])
  finally show ?case
    using k by (simp add: upt_conv_Cons)
qed

lemma concat_slices: "concat (map (\<lambda>j. slice text (j * sz) (j * sz + sz)) [0 ..< n]) = take (n * sz) text"
proof (induction n)
  case 0
  show ?case by simp
next
  case (Suc n)
  have "take (n * sz) text @ take sz (drop (n * sz) text) = take (n * sz + sz) text"
    by (simp add: take_add)
  with Suc show ?case
    by (simp add: slice_def add.commute)
qed

lemma splitIntoChunks_slices:
  assumes "0 < numChunks" and "text \<noteq> []"
  shows "splitIntoChunks text numChunks =
           Return (map (\<lambda>j. slice text (j * Math_ceil_div (length text) numChunks)
                                      (j * Math_ceil_div (length text) numChunks
                                         + Math_ceil_div (length text) numChunks))
                     [0 ..< Math_ceil_div (length text) (int (Math_ceil_div (length text) numChunks))])"
proof -
  have "0 < Math_ceil_div (length text) numChunks"
    using assms by (simp add: Math_ceil_div_pos)
  from chunk_loop_slices [OF this, of "text" 0 "[]"] show ?thesis
    using assms by (simp add: splitIntoChunks_def Math_ceil_div_nat)
qed

lemma splitIntoChunks_empty: "0 < numChunks \<Longrightarrow> splitIntoChunks [] numChunks = Return []"
  by (simp add: splitIntoChunks_def chunk_loop.simps)

lemma length_slice: "length (slice str a (a + sz)) = min sz (length str - a)"
  by (simp add: slice_def)

lemma slices_one: "map (\<lambda>k. slice str (k * 1) (k * 1 + 1)) [0 ..< length str] = map (\<lambda>c. [c]) str"
proof (rule nth_equalityI)
  show "length (map (\<lambda>k. slice str (k * 1) (k * 1 + 1)) [0 ..< length str]) = length (map (\<lambda>c. [c]) str)"
    by simp
next
  fix i assume "i < length (map (\<lambda>k. slice str (k * 1) (k * 1 + 1)) [0 ..< length str])"
  then have i: "i < length str" by simp
  then have "take 1 (drop i str) = [str ! i]"
    by (metis Cons_nth_drop_Suc One_nat_def take0 take_Suc_Cons)
  with i show "map (\<lambda>k. slice str (k * 1) (k * 1 + 1)) [0 ..< length str] ! i = map (\<lambda>c. [c]) str ! i"
    by (simp add: slice_def)
qed

lemma Math_ceil_div_short: "0 < a \<Longrightarrow> int a \<le> b \<Longrightarrow> Math_ceil_div a b = 1"
proof -
  assume a: "0 < a" and b: "int a \<le> b"
  then have "0 < real a / real_of_int b" "real a / real_of_int b \<le> 1"
    by simp_all
  then have "\<lceil>real a / real_of_int b\<rceil> = 1"
    by (intro ceiling_unique) simp_all
  then show ?thesis by (simp add: Math_ceil_div_def)
qed

lemma splitIntoChunks_short:
  assumes "0 < count" and "int (length str) \<le> count"
  shows "splitIntoChunks str count = Return (map (\<lambda>c. [c]) str)"
proof (cases "str = []")
  case True
  with assms show ?thesis by (simp add: splitIntoChunks_empty)
next
  case False
  then have "Math_ceil_div (length str) count = 1"
    using assms by (simp add: Math_ceil_div_short)
  moreover have "Math_ceil_div (length str) (int 1) = length str"
    by (simp only: Math_ceil_div_nat) simp
  ultimately show ?thesis
    using splitIntoChunks_slices [OF assms(1) False] slices_one [of str]
    by simp
qed

text \<open>
  C1. For every string and every integer count above zero, \<^verbatim>\<open>splitIntoChunks\<close> returns, and
  the concatenation of the chunks it returns, in order, is the string itself: no code
  unit is lost or duplicated, and no two chunks overlap.
\<close>

theorem splitIntoChunks_concat:
  "0 < count \<Longrightarrow> \<exists>chunks. splitIntoChunks str count = Return chunks \<and> concat chunks = str"
proof (cases "str = []")
  case True
  assume "0 < count"
  with True show ?thesis by (simp add: splitIntoChunks_empty)
next
  case False
  assume c: "0 < count"
  define sz where "sz = Math_ceil_div (length str) count"
  define n where "n = Math_ceil_div (length str) (int sz)"
  have sz: "0 < sz" using False c by (simp add: sz_def Math_ceil_div_pos)
  have "\<not> n * sz < length str"
    using offset_in_text [OF sz, of n "length str"] by (simp add: n_def Math_ceil_div_nat)
  then have "take (n * sz) str = str" by simp
  then show ?thesis
    using splitIntoChunks_slices [OF c False] concat_slices [of str sz n]
    by (simp add: sz_def n_def)
qed

theorem splitIntoChunks_concat_witness:
  "(0::int) < 2 \<and> (\<exists>chunks. splitIntoChunks (utf16 ''Hello'') 2 = Return chunks
      \<and> concat chunks = utf16 ''Hello'')"
  using splitIntoChunks_concat [of 2 "utf16 ''Hello''"] by simp



text \<open>
  C8, as stated: a chunk may be empty only if the body is shorter than the chunk count, and
  then the chunk sequence ends with empty chunks. The body \<^verbatim>\<open>"Hello"\<close> is shorter than the
  count 100, and its chunks are the five one-character strings: the last chunk is not
  empty, and no chunk is.
\<close>

theorem trailing_empty_chunks_counterexample:
  "int (length (utf16 ''Hello'')) < 100 \<and>
   splitIntoChunks (utf16 ''Hello'') 100 =
     Return [utf16 ''H'', utf16 ''e'', utf16 ''l'', utf16 ''l'', utf16 ''o''] \<and>
   last [utf16 ''H'', utf16 ''e'', utf16 ''l'', utf16 ''l'', utf16 ''o''] \<noteq> [] \<and>
   [] \<notin> set [utf16 ''H'', utf16 ''e'', utf16 ''l'', utf16 ''l'', utf16 ''o'']"
  by (simp add: splitIntoChunks_def Math_ceil_div_code utf16_def chunk_loop.simps slice_def)

text \<open>
  C8, amended: for a count above zero no chunk is ever empty; a body shorter than the
  count is split into its one-character strings, as many chunks as the body has code
  units, with no empty chunk after them.
\<close>

theorem splitIntoChunks_nonempty_chunks:
  "0 < count \<Longrightarrow>
     \<exists>chunks. splitIntoChunks str count = Return chunks \<and> [] \<notin> set chunks \<and>
       (int (length str) < count \<longrightarrow> chunks = map (\<lambda>c. [c]) str)"
proof (cases "str = []")
  case True
  assume "0 < count"
  with True show ?thesis by (simp add: splitIntoChunks_empty)
next
  case False
  assume c: "0 < count"
  define sz where "sz = Math_ceil_div (length str) count"
  define n where "n = Math_ceil_div (length str) (int sz)"
  have sz: "0 < sz" using False c by (simp add: sz_def Math_ceil_div_pos)
  have n: "n = (length str + sz - 1) div sz"
    by (simp add: n_def Math_ceil_div_nat)
  have "slice str (k * sz) (k * sz + sz) \<noteq> []" if "k < n" for k
  proof -
    have "k * sz < length str"
      using offset_in_text [OF sz, of k "length str"] n that by simp
    then have "0 < length (slice str (k * sz) (k * sz + sz))"
      using sz by (simp add: length_slice)
    then show ?thesis by auto
  qed
  then have "[] \<notin> set (map (\<lambda>k. slice str (k * sz) (k * sz + sz)) [0 ..< n])"
    by (auto simp: image_iff) metis
  moreover have "splitIntoChunks str count = Return (map (\<lambda>k. slice str (k * sz) (k * sz + sz)) [0 ..< n])"
    unfolding sz_def n_def by (rule splitIntoChunks_slices [OF c False])
  moreover have "int (length str) < count \<longrightarrow> splitIntoChunks str count = Return (map (\<lambda>c. [c]) str)"
    using c by (auto intro: splitIntoChunks_short)
  ultimately show ?thesis by auto
qed

theorem splitIntoChunks_nonempty_chunks_witness:
  "(0::int) < 100 \<and> int (length (utf16 ''Hello'')) < 100 \<and>
   (\<exists>chunks. splitIntoChunks (utf16 ''Hello'') 100 = Return chunks \<and> [] \<notin> set chunks \<and>
      chunks = map (\<lambda>c. [c]) (utf16 ''Hello''))"
  using splitIntoChunks_nonempty_chunks [of 100 "utf16 ''Hello''"] by (simp add: utf16_def)

section \<open>Properties of the identity scheme\<close>

lemma unat_digit: "d < 10 \<Longrightarrow> unat (digit d) = 48 + d"
  unfolding digit_def unat_of_nat by simp

lemma digit_inj:
  assumes "a < 10" and "b < 10" and "digit a = digit b"
  shows "a = b"
proof -
  from assms(3) have "unat (digit a) = unat (digit b)"
    by (rule arg_cong)
  then have "48 + a = 48 + b"
    by (simp only: unat_digit [OF assms(1)] unat_digit [OF assms(2)])
  then show ?thesis by simp
qed

lemma Number_toString_nonempty: "Number_toString n \<noteq> []"
  by (subst Number_toString.simps) simp

lemma Number_toString_inj: "Number_toString n = Number_toString m \<Longrightarrow> n = m"
proof (induction n arbitrary: m rule: Number_toString.induct)
  case (1 n)
  show ?case
  proof (cases "n < 10")
    case small: True
    show ?thesis
    proof (cases "m < 10")
      case True
      with small "1.prems" show ?thesis
        by (simp add: Number_toString.simps [of n] Number_toString.simps [of m] digit_inj)
    next
      case False
      with small "1.prems" Number_toString_nonempty [of "m div 10"] show ?thesis
        by (simp add: Number_toString.simps [of n] Number_toString.simps [of m])
    qed
  next
    case big: False
    show ?thesis
    proof (cases "m < 10")
      case True
      with big "1.prems" Number_toString_nonempty [of "n div 10"] show ?thesis
        by (simp add: Number_toString.simps [of n] Number_toString.simps [of m])
    next
      case False
      with big "1.prems" have eq: "Number_toString (n div 10) = Number_toString (m div 10)"
        and d: "digit (n mod 10) = digit (m mod 10)"
        by (simp_all add: Number_toString.simps [of n] Number_toString.simps [of m])
      from "1.IH" [OF big eq] have "n div 10 = m div 10" .
      moreover from d have "n mod 10 = m mod 10"
        by (intro digit_inj) simp_all
      ultimately show ?thesis
        by (metis div_mult_mod_eq)
    qed
  qed
qed

lemma Number_toString_no_underscore: "c \<in> set (Number_toString n) \<Longrightarrow> c \<noteq> 0x5F"
proof (induction n rule: Number_toString.induct)
  case (1 n)
  have d: "digit k \<noteq> 0x5F" if "k < 10" for k
    using unat_digit [OF that] that by auto
  show ?case
  proof (cases "n < 10")
    case True
    with "1.prems" d show ?thesis
      by (simp add: Number_toString.simps [of n])
  next
    case False
    with "1.prems" have "c \<in> set (Number_toString (n div 10)) \<or> c = digit (n mod 10)"
      by (auto simp: Number_toString.simps [of n])
    then show ?thesis
      using "1.IH" [OF False] d [of "n mod 10"] by auto
  qed
qed

lemma split_at_last_mark:
  assumes "a @ x # d = a' @ x # d'" and "x \<notin> set d" and "x \<notin> set d'"
  shows "a = a' \<and> d = d'"
proof -
  have "takeWhile (\<lambda>c. c \<noteq> x) (rev (a @ x # d)) = rev d"
    using assms(2) by (auto simp: takeWhile_append)
  moreover have "takeWhile (\<lambda>c. c \<noteq> x) (rev (a' @ x # d')) = rev d'"
    using assms(3) by (auto simp: takeWhile_append)
  ultimately have "d = d'"
    using assms(1) by simp
  with assms(1) show ?thesis by simp
qed

lemma utf16_chunk: "utf16 ''_chunk_'' = utf16 ''_chunk'' @ [0x5F]"
  by (simp add: utf16_def)

lemma startsWith_append: "startsWith (p @ s) p"
  by (simp add: startsWith_def)

lemma startsWith_prefix: "startsWith s p \<longleftrightarrow> prefix p s"
  unfolding startsWith_def
  by (metis append_eq_conv_conj prefix_def)

text \<open>
  C7. For chunk indices that JavaScript represents exactly and prints in full, the
  non-negative integers up to \<open>2^53\<close>: the identifier of a source URL and a chunk index is
  the URL, then \<^verbatim>\<open>_chunk_\<close>, then the decimal numeral of the index. It is a function of the
  pair, two pairs with the same identifier are the same pair, and the URL is a literal
  prefix of the identifier, which is what \<^verbatim>\<open>id.startsWith(url)\<close> tests.
\<close>

theorem uniqueId_scheme:
  assumes "chunkIndex \<le> 2 ^ 53" and "chunkIndex' \<le> 2 ^ 53"
  shows "uniqueId sourceUrl chunkIndex = sourceUrl @ utf16 ''_chunk_'' @ Number_toString chunkIndex \<and>
   (uniqueId sourceUrl chunkIndex = uniqueId sourceUrl' chunkIndex' \<longrightarrow>
      sourceUrl = sourceUrl' \<and> chunkIndex = chunkIndex') \<and>
   startsWith (uniqueId sourceUrl chunkIndex) sourceUrl \<and>
   prefix sourceUrl (uniqueId sourceUrl chunkIndex)"
proof (intro conjI impI)
  show "uniqueId sourceUrl chunkIndex = sourceUrl @ utf16 ''_chunk_'' @ Number_toString chunkIndex"
    by (simp add: uniqueId_def)
  show "startsWith (uniqueId sourceUrl chunkIndex) sourceUrl"
    by (simp add: uniqueId_def startsWith_append)
  then show "prefix sourceUrl (uniqueId sourceUrl chunkIndex)"
    by (simp add: startsWith_prefix)
  assume "uniqueId sourceUrl chunkIndex = uniqueId sourceUrl' chunkIndex'"
  then have "(sourceUrl @ utf16 ''_chunk'') @ 0x5F # Number_toString chunkIndex
           = (sourceUrl' @ utf16 ''_chunk'') @ 0x5F # Number_toString chunkIndex'"
    by (simp add: uniqueId_def utf16_chunk)
  then have "sourceUrl @ utf16 ''_chunk'' = sourceUrl' @ utf16 ''_chunk''
      \<and> Number_toString chunkIndex = Number_toString chunkIndex'"
    by (rule split_at_last_mark) (auto dest: Number_toString_no_underscore)
  then show "sourceUrl = sourceUrl'" and "chunkIndex = chunkIndex'"
    by (simp_all add: Number_toString_inj)
qed

theorem uniqueId_scheme_witness:
  "(12::nat) \<le> 2 ^ 53 \<and>
   uniqueId (utf16 ''http://a'') 12 = utf16 ''http://a_chunk_12'' \<and>
   uniqueId (utf16 ''http://a'') 12 = uniqueId (utf16 ''http://a'') 12 \<and>
   startsWith (uniqueId (utf16 ''http://a'') 12) (utf16 ''http://a'')"
proof -
  have b: "(12::nat) \<le> 2 ^ 53" by simp
  from uniqueId_scheme [OF b b, of "utf16 ''http://a''" "utf16 ''http://a''"] b
  show ?thesis
    by (simp add: utf16_def uniqueId_def startsWith_def Number_toString.simps digit_def)
qed

section \<open>Properties of the store operations\<close>

lemma follows_contract_chroma_collab: "follows_contract (chroma_collab fetch vectors found answer)"
  by (simp add: follows_contract_def chroma_collab_def)

lemma contract_getOrCreateCollection:
  "follows_contract C \<Longrightarrow> call (getOrCreateCollection C) s = (Return (), s)"
  by (simp add: follows_contract_def call_def chroma_getOrCreateCollection_def)

lemma contract_get_all:
  "follows_contract C \<Longrightarrow>
     call (collection_get C None) s =
       (Return \<lparr>res_ids = map rec_id (store (world s)),
                res_metadatas = map rec_metadata (store (world s))\<rparr>, s)"
  by (simp add: follows_contract_def call_def chroma_get_def Let_def)


lemma contract_delete:
  "follows_contract C \<Longrightarrow>
     call (collection_delete C ids) s =
       (Return (), s\<lparr>world := (world s)\<lparr>store := filter (\<lambda>r. rec_id r \<notin> set ids) (store (world s))\<rparr>\<rparr>)"
  by (simp add: follows_contract_def call_def chroma_delete_def)


lemma await_Return: "m s = (Return v, s') \<Longrightarrow> await m k s = k v s'"
  by (simp add: await_def)





lemma ids_to_delete:
  "filter (\<lambda>uid. startsWith uid url) (map rec_id recs) = map rec_id (filter (\<lambda>r. startsWith (rec_id r) url) recs)"
  by (simp add: filter_map comp_def)

lemma delete_by_ids:
  "filter (\<lambda>r. rec_id r \<notin> rec_id ` {x \<in> set recs. startsWith (rec_id x) url}) recs
     = filter (\<lambda>r. \<not> startsWith (rec_id r) url) recs"
  by (rule filter_cong) auto

lemma deleteEmbeddingsForUrl_contract:
  assumes "follows_contract C"
  shows "deleteEmbeddingsForUrl C url s =
    (Return (),
     s\<lparr>world := (world s)\<lparr>store := filter (\<lambda>r. \<not> startsWith (rec_id r) url) (store (world s))\<rparr>,
       console := console s @
         (if \<exists>r \<in> set (store (world s)). startsWith (rec_id r) url
          then [Deleted_embeddings (length (filter (\<lambda>r. startsWith (rec_id r) url) (store (world s)))) url]
          else [])\<rparr>)"
proof (cases "\<exists>r \<in> set (store (world s)). startsWith (rec_id r) url")
  case True
  then have "filter (\<lambda>r. startsWith (rec_id r) url) (store (world s)) \<noteq> []"
    by (auto simp: filter_empty_conv)
  with True show ?thesis
    unfolding deleteEmbeddingsForUrl_def Let_def
    by (simp add: await_Return [OF contract_getOrCreateCollection [OF assms]]
        await_Return [OF contract_get_all [OF assms]] ids_to_delete
        await_Return [OF contract_delete [OF assms]] delete_by_ids console_log_def)
next
  case False
  then have none: "filter (\<lambda>r. startsWith (rec_id r) url) (store (world s)) = []"
    by (auto simp: filter_empty_conv)
  from False have all: "filter (\<lambda>r. \<not> startsWith (rec_id r) url) (store (world s)) = store (world s)"
    by (auto simp: filter_id_conv)
  from False show ?thesis
    unfolding deleteEmbeddingsForUrl_def Let_def
    by (simp add: await_Return [OF contract_getOrCreateCollection [OF assms]]
        await_Return [OF contract_get_all [OF assms]] ids_to_delete none all returns_def)
qed

lemma ingest_contract:
  assumes "follows_contract C"
  shows "ingest C url s =
    try_catch (await (scrapeWebpage C url) (after_scrape C url))
      (\<lambda>error. console_log (Error_ingesting url error))
      (s\<lparr>world := (world s)\<lparr>store := filter (\<lambda>r. \<not> startsWith (rec_id r) url) (store (world s))\<rparr>,
         console := console s @ Ingesting url #
           (if \<exists>r \<in> set (store (world s)). startsWith (rec_id r) url
            then [Deleted_embeddings (length (filter (\<lambda>r. startsWith (rec_id r) url) (store (world s)))) url]
            else [])\<rparr>)"
proof -
  let ?s0 = "s\<lparr>console := console s @ [Ingesting url]\<rparr>"
  have "ingest_try C url s
      = await (deleteEmbeddingsForUrl C url) (\<lambda>_.
            await (scrapeWebpage C url) (after_scrape C url)) ?s0"
    by (simp add: ingest_try_def await_def console_log_def)
  also have "\<dots> = await (scrapeWebpage C url) (after_scrape C url)
      (s\<lparr>world := (world s)\<lparr>store := filter (\<lambda>r. \<not> startsWith (rec_id r) url) (store (world s))\<rparr>,
         console := console s @ Ingesting url #
           (if \<exists>r \<in> set (store (world s)). startsWith (rec_id r) url
            then [Deleted_embeddings (length (filter (\<lambda>r. startsWith (rec_id r) url) (store (world s)))) url]
            else [])\<rparr>)"
    by (simp add: await_Return [OF deleteEmbeddingsForUrl_contract [OF assms]])
  finally show ?thesis
    by (simp add: ingest_def try_catch_def)
qed

lemma scrape_no_body:
  assumes "axios_get C url (world s) = (r, w')"
    and "case r of Inl e \<Rightarrow> True | Inr doc \<Rightarrow> body_html doc = None \<or> body_html doc = Some []"
  defines "end \<equiv> try_catch (await (scrapeWebpage C url) (after_scrape C url))
      (\<lambda>error. console_log (Error_ingesting url error)) s"
  shows "fst end = Return () \<and> world (snd end) = w'"
proof (cases r)
  case (Inl e)
  with assms(1) show ?thesis
    by (simp add: end_def try_catch_def await_def scrapeWebpage_def call_def console_log_def)
next
  case (Inr doc)
  show ?thesis
  proof (cases "each_link (hrefs doc) ([], [])")
    case bad: (Inl e)
    with Inr assms(1) show ?thesis
      by (simp add: end_def try_catch_def await_def scrapeWebpage_def call_def console_log_def throws_def)
  next
    case ok: (Inr links)
    with Inr assms(1,2) show ?thesis
      by (cases links)
        (auto simp: end_def try_catch_def await_def scrapeWebpage_def call_def console_log_def
          returns_def after_scrape_def)
  qed
qed

lemma uid_a0: "uniqueId (utf16 ''http://a'') 0 = utf16 ''http://a_chunk_0''"
  by (simp add: uniqueId_def utf16_def Number_toString.simps digit_def)

lemma uid_b0: "uniqueId (utf16 ''http://b'') 0 = utf16 ''http://b_chunk_0''"
  by (simp add: uniqueId_def utf16_def Number_toString.simps digit_def)

lemma starts_a: "startsWith (utf16 ''http://a_chunk_0'') (utf16 ''http://a'')"
  "\<not> startsWith (utf16 ''http://b_chunk_0'') (utf16 ''http://a'')"
  by (simp_all add: startsWith_def utf16_def)

text \<open>
  C4. With a store that follows the contract, \<^verbatim>\<open>deleteEmbeddingsForUrl\<close> removes exactly the
  records whose identifier starts with the url and leaves the other records as they
  were, in their order; and \<^verbatim>\<open>ingest\<close> runs \<^verbatim>\<open>scrapeWebpage\<close> and all that follows in the
  state that the purge has left.
\<close>

theorem purge_before_fetch:
  fixes s :: "'x state" and url :: jsstring
  assumes "follows_contract C"
  defines "kept \<equiv> filter (\<lambda>r. \<not> startsWith (rec_id r) url) (store (world s))"
  defines "deleted \<equiv> filter (\<lambda>r. startsWith (rec_id r) url) (store (world s))"
  defines "out \<equiv> (if \<exists>r \<in> set (store (world s)). startsWith (rec_id r) url
                    then [Deleted_embeddings (length deleted) url] else [])"
  shows "deleteEmbeddingsForUrl C url s =
           (Return (), s\<lparr>world := (world s)\<lparr>store := kept\<rparr>, console := console s @ out\<rparr>) \<and>
         ingest C url s =
           try_catch (await (scrapeWebpage C url) (after_scrape C url))
             (\<lambda>error. console_log (Error_ingesting url error))
             (s\<lparr>world := (world s)\<lparr>store := kept\<rparr>, console := console s @ Ingesting url # out\<rparr>)"
proof
  show "deleteEmbeddingsForUrl C url s =
           (Return (), s\<lparr>world := (world s)\<lparr>store := kept\<rparr>, console := console s @ out\<rparr>)"
    unfolding kept_def out_def deleted_def by (rule deleteEmbeddingsForUrl_contract [OF assms(1)])
  show "ingest C url s =
           try_catch (await (scrapeWebpage C url) (after_scrape C url))
             (\<lambda>error. console_log (Error_ingesting url error))
             (s\<lparr>world := (world s)\<lparr>store := kept\<rparr>, console := console s @ Ingesting url # out\<rparr>)"
    unfolding kept_def out_def deleted_def by (rule ingest_contract [OF assms(1)])
qed

theorem purge_before_fetch_witness:
  "let C = chroma_collab (\<lambda>_. Inl (Error ''offline'')) (\<lambda>_. Inr [[1]]) (Inr []) (\<lambda>_. Inr []);
       md = \<lparr>md_url = Undefined, md_body = Str (utf16 ''Hello''), md_head = Undefined, md_chunkIndex = 0\<rparr>;
       a = \<lparr>rec_id = uniqueId (utf16 ''http://a'') 0, rec_embedding = [1], rec_metadata = md\<rparr>;
       b = \<lparr>rec_id = uniqueId (utf16 ''http://b'') 0, rec_embedding = [1], rec_metadata = md\<rparr>;
       s = \<lparr>world = \<lparr>store = [a, b], ext = ()\<rparr>, console = []\<rparr>
   in follows_contract C \<and>
      deleteEmbeddingsForUrl C (utf16 ''http://a'') s =
        (Return (), \<lparr>world = \<lparr>store = [b], ext = ()\<rparr>,
                     console = [Deleted_embeddings 1 (utf16 ''http://a'')]\<rparr>) \<and>
      ingest C (utf16 ''http://a'') s =
        (Return (), \<lparr>world = \<lparr>store = [b], ext = ()\<rparr>,
                     console = [Ingesting (utf16 ''http://a''),
                                Deleted_embeddings 1 (utf16 ''http://a''),
                                Error_ingesting (utf16 ''http://a'') (Error ''offline'')]\<rparr>)"
proof -
  let ?C = "chroma_collab (\<lambda>_. Inl (Error ''offline'')) (\<lambda>_. Inr [[1]]) (Inr []) (\<lambda>_. Inr [])"
  have c: "follows_contract ?C"
    by (rule follows_contract_chroma_collab)
  show ?thesis
    using c purge_before_fetch [OF c]
    by (simp add: Let_def uid_a0 uid_b0 starts_a try_catch_def await_def scrapeWebpage_def
        call_def chroma_collab_def console_log_def)
qed

text \<open>
  C9. With a store that follows the contract and a fetch that leaves the store alone: when
  the fetch fails, or the fetched page has no body or an empty one, \<^verbatim>\<open>ingest\<close> returns and
  the records whose identifier starts with the url are gone all the same; if there were
  any, the store is not what it was before the call.
\<close>

theorem ingest_purges_despite_empty_body:
  fixes s :: "'x state" and url :: jsstring
  defines "kept \<equiv> filter (\<lambda>r. \<not> startsWith (rec_id r) url) (store (world s))"
  assumes "follows_contract C"
    and "axios_get C url ((world s)\<lparr>store := kept\<rparr>) = (r, w')"
    and "store w' = kept"
    and "case r of Inl e \<Rightarrow> True | Inr doc \<Rightarrow> body_html doc = None \<or> body_html doc = Some []"
  shows "\<exists>s'. ingest C url s = (Return (), s') \<and> store (world s') = kept \<and>
           ((\<exists>r \<in> set (store (world s)). startsWith (rec_id r) url) \<longrightarrow>
              store (world s') \<noteq> store (world s))"
proof -
  let ?s1 = "s\<lparr>world := (world s)\<lparr>store := kept\<rparr>,
         console := console s @ Ingesting url #
           (if \<exists>r \<in> set (store (world s)). startsWith (rec_id r) url
            then [Deleted_embeddings (length (filter (\<lambda>r. startsWith (rec_id r) url) (store (world s)))) url]
            else [])\<rparr>"
  have "axios_get C url (world ?s1) = (r, w')"
    using assms(3) by simp
  from scrape_no_body [OF this assms(5)]
  have "fst (ingest C url s) = Return ()" and "world (snd (ingest C url s)) = w'"
    using ingest_contract [OF assms(2), of url s] by (simp_all add: kept_def)
  then have run: "ingest C url s = (Return (), snd (ingest C url s))"
    and w: "store (world (snd (ingest C url s))) = kept"
    using assms(4) by (simp_all add: prod_eq_iff)
  have "kept \<noteq> store (world s)" if "\<exists>r \<in> set (store (world s)). startsWith (rec_id r) url"
  proof -
    from that obtain x where "x \<in> set (store (world s))" and "startsWith (rec_id x) url"
      by blast
    then have "length kept < length (store (world s))"
      unfolding kept_def by (intro length_filter_less [of x]) simp_all
    then show ?thesis by auto
  qed
  with run w show ?thesis by metis
qed

theorem ingest_purges_despite_empty_body_witness:
  "let C = chroma_collab (\<lambda>_. Inr \<lparr>head_html = Some [], body_html = Some [], hrefs = []\<rparr>)
             (\<lambda>_. Inr [[1]]) (Inr []) (\<lambda>_. Inr []);
       md = \<lparr>md_url = Undefined, md_body = Str (utf16 ''Hello''), md_head = Undefined, md_chunkIndex = 0\<rparr>;
       a = \<lparr>rec_id = uniqueId (utf16 ''http://a'') 0, rec_embedding = [1], rec_metadata = md\<rparr>;
       b = \<lparr>rec_id = uniqueId (utf16 ''http://b'') 0, rec_embedding = [1], rec_metadata = md\<rparr>;
       s = \<lparr>world = \<lparr>store = [a, b], ext = ()\<rparr>, console = []\<rparr>
   in follows_contract C \<and>
      (\<exists>s'. ingest C (utf16 ''http://a'') s = (Return (), s') \<and> store (world s') = [b] \<and>
            store (world s') \<noteq> store (world s))"
proof -
  let ?C = "chroma_collab (\<lambda>_. Inr \<lparr>head_html = Some [], body_html = Some [], hrefs = []\<rparr>)
             (\<lambda>_. Inr [[1]]) (Inr []) (\<lambda>_. Inr [])"
  let ?md = "\<lparr>md_url = Undefined, md_body = Str (utf16 ''Hello''), md_head = Undefined, md_chunkIndex = 0\<rparr>"
  let ?a = "\<lparr>rec_id = uniqueId (utf16 ''http://a'') 0, rec_embedding = [1], rec_metadata = ?md\<rparr>"
  let ?b = "\<lparr>rec_id = uniqueId (utf16 ''http://b'') 0, rec_embedding = [1], rec_metadata = ?md\<rparr>"
  let ?s = "\<lparr>world = \<lparr>store = [?a, ?b], ext = ()\<rparr>, console = []\<rparr>"
  have c: "follows_contract ?C"
    by (rule follows_contract_chroma_collab)
  have kept: "filter (\<lambda>r. \<not> startsWith (rec_id r) (utf16 ''http://a'')) (store (world ?s)) = [?b]"
    by (simp add: uid_a0 uid_b0 starts_a)
  have fetch: "axios_get ?C (utf16 ''http://a'')
      ((world ?s)\<lparr>store := filter (\<lambda>r. \<not> startsWith (rec_id r) (utf16 ''http://a'')) (store (world ?s))\<rparr>)
      = (Inr \<lparr>head_html = Some [], body_html = Some [], hrefs = []\<rparr>, \<lparr>store = [?b], ext = ()\<rparr>)"
    by (simp add: chroma_collab_def uid_a0 uid_b0 starts_a)
  have "\<exists>s'. ingest ?C (utf16 ''http://a'') ?s = (Return (), s') \<and> store (world s') = [?b] \<and>
            store (world s') \<noteq> store (world ?s)"
    using ingest_purges_despite_empty_body [OF c fetch] kept
    by (simp add: uid_a0 uid_b0 starts_a)
  with c show ?thesis
    by (simp add: Let_def)
qed

section \<open>ingest returns\<close>

lemma call_settles: "fst (call f s) \<noteq> Diverge"
  by (simp add: call_def split: prod.split sum.split)

lemma console_log_settles: "fst (console_log l s) \<noteq> Diverge"
  by (simp add: console_log_def)

lemma returns_settles: "fst (returns v s) \<noteq> Diverge"
  by (simp add: returns_def)

lemma throws_settles: "fst (throws e s) \<noteq> Diverge"
  by (simp add: throws_def)

lemma await_settles:
  assumes "\<And>s. fst (m s) \<noteq> Diverge" and "\<And>v s. fst (k v s) \<noteq> Diverge"
  shows "fst (await m k s) \<noteq> Diverge"
proof (cases "m s")
  case (Pair c s')
  with assms(1) [of s] assms(2) show ?thesis
    by (cases c) (simp_all add: await_def)
qed

lemma generateVectorEmbeddings_settles: "fst (generateVectorEmbeddings C str s) \<noteq> Diverge"
  unfolding generateVectorEmbeddings_def
  by (intro await_settles call_settles) (simp add: throws_def returns_def split: list.split)

lemma addToVectorDB_settles: "fst (addToVectorDB C args i s) \<noteq> Diverge"
  unfolding addToVectorDB_def Let_def
  by (intro await_settles call_settles) (simp add: console_log_settles await_settles call_settles)

lemma deleteEmbeddingsForUrl_settles: "fst (deleteEmbeddingsForUrl C url s) \<noteq> Diverge"
  unfolding deleteEmbeddingsForUrl_def Let_def
  by (intro await_settles call_settles)
    (simp add: console_log_settles await_settles call_settles returns_settles)

lemma scrapeWebpage_settles: "fst (scrapeWebpage C url s) \<noteq> Diverge"
  unfolding scrapeWebpage_def
  by (intro await_settles call_settles) (simp add: throws_def returns_def split: sum.split prod.split)

lemma ingest_loop_settles: "fst (ingest_loop C url bodyChunks i s) \<noteq> Diverge"
proof (induction C url bodyChunks i s rule: ingest_loop.induct)
  case (1 C url bodyChunks i s)
  show ?case
  proof (cases "i < length bodyChunks")
    case False
    then show ?thesis by simp
  next
    case True
    obtain c1 s1 where g: "generateVectorEmbeddings C (bodyChunks ! i) s = (c1, s1)"
      by (cases "generateVectorEmbeddings C (bodyChunks ! i) s")
    have c1: "c1 \<noteq> Diverge"
      using generateVectorEmbeddings_settles [of C "bodyChunks ! i" s] g by simp
    show ?thesis
    proof (cases c1)
      case (Return e)
      obtain c2 s2 where a: "addToVectorDB C
          \<lparr>arg_embedding = e, arg_url = url, arg_body = Some (bodyChunks ! i), arg_head = None\<rparr>
          i s1 = (c2, s2)"
        by (cases "addToVectorDB C
          \<lparr>arg_embedding = e, arg_url = url, arg_body = Some (bodyChunks ! i), arg_head = None\<rparr>
          i s1")
      have c2: "c2 \<noteq> Diverge"
        using addToVectorDB_settles [of C _ i s1] a by (metis fst_conv)
      show ?thesis
      proof (cases c2)
        case Return2: (Return u)
        from "1.IH" [OF True g [symmetric] Return a [symmetric] Return2]
        show ?thesis
          using True g Return a Return2 by simp
      next
        case (Throw err)
        then show ?thesis
          using True g Return a by simp
      next
        case Diverge
        with c2 show ?thesis by simp
      qed
    next
      case (Throw err)
      then show ?thesis using True g by simp
    next
      case Diverge
      with c1 show ?thesis by simp
    qed
  qed
qed

lemma splitIntoChunks_returns: "0 < count \<Longrightarrow> \<exists>chunks. splitIntoChunks str count = Return chunks"
  by (cases "str = []") (simp_all add: splitIntoChunks_empty splitIntoChunks_slices)

lemma after_scrape_settles: "fst (after_scrape C url p s) \<noteq> Diverge"
proof (cases "page_body p")
  case None
  then show ?thesis by (simp add: after_scrape_def console_log_def)
next
  case (Some body)
  obtain chunks where "splitIntoChunks body 100 = Return chunks"
    using splitIntoChunks_returns [of 100 body] by auto
  then have "fst (sync (splitIntoChunks body 100) s) \<noteq> Diverge" for s :: "'a state"
    by (simp add: sync_def)
  then have "fst (await (sync (splitIntoChunks body 100)) (\<lambda>bodyChunks.
                 await (console_log (Split_body_into (length bodyChunks))) (\<lambda>_.
                   await (ingest_loop C url bodyChunks 0) (\<lambda>_.
                     console_log (Ingesting_successful url)))) s) \<noteq> Diverge"
    by (intro await_settles console_log_settles ingest_loop_settles)
  with Some show ?thesis
    by (simp add: after_scrape_def console_log_def)
qed

lemma ingest_try_settles: "fst (ingest_try C url s) \<noteq> Diverge"
  unfolding ingest_try_def
  by (intro await_settles console_log_settles deleteEmbeddingsForUrl_settles
      scrapeWebpage_settles after_scrape_settles)

text \<open>
  C5. Whatever the collaborators answer or throw, \<^verbatim>\<open>ingest\<close> returns normally: an exception
  of its \<^verbatim>\<open>try\<close> block is caught and written to the console, and nothing else is done.
\<close>

theorem ingest_never_raises:
  "\<exists>s'. ingest C url s = (Return (), s') \<and>
     (\<forall>e s1. ingest_try C url s = (Throw e, s1) \<longrightarrow>
        s' = s1\<lparr>console := console s1 @ [Error_ingesting url e]\<rparr>) \<and>
     (\<forall>s1. ingest_try C url s = (Return (), s1) \<longrightarrow> s' = s1)"
proof (cases "ingest_try C url s")
  case (Pair c s1)
  with ingest_try_settles [of C url s] show ?thesis
    by (cases c) (simp_all add: ingest_def try_catch_def console_log_def)
qed

theorem ingest_never_raises_witness:
  "let C = chroma_collab (\<lambda>_. Inl (Error ''offline'')) (\<lambda>_. Inr [[1]]) (Inr []) (\<lambda>_. Inr []);
       s = \<lparr>world = \<lparr>store = [], ext = ()\<rparr>, console = []\<rparr>
   in ingest_try C (utf16 ''http://a'') s =
        (Throw (Error ''offline''), s\<lparr>console := [Ingesting (utf16 ''http://a'')]\<rparr>) \<and>
      ingest C (utf16 ''http://a'') s =
        (Return (), s\<lparr>console := [Ingesting (utf16 ''http://a''),
                                   Error_ingesting (utf16 ''http://a'') (Error ''offline'')]\<rparr>)"
proof -
  let ?C = "chroma_collab (\<lambda>_. Inl (Error ''offline'')) (\<lambda>_. Inr [[1]]) (Inr []) (\<lambda>_. Inr [])"
  let ?s = "\<lparr>world = \<lparr>store = [], ext = ()\<rparr>, console = []\<rparr> :: unit state"
  have t: "ingest_try ?C (utf16 ''http://a'') ?s =
        (Throw (Error ''offline''), ?s\<lparr>console := [Ingesting (utf16 ''http://a'')]\<rparr>)"
    by (simp add: ingest_try_def await_def console_log_def deleteEmbeddingsForUrl_def call_def
        chroma_collab_def chroma_getOrCreateCollection_def chroma_get_def returns_def
        scrapeWebpage_def)
  from ingest_never_raises [of ?C "utf16 ''http://a''" ?s] t show ?thesis
    by (auto simp: Let_def)
qed

section \<open>Properties of chat\<close>

lemma trim_empty_iff: "trim s = [] \<longleftrightarrow> whitespace_only s"
proof
  assume "trim s = []"
  then have all: "\<forall>c \<in> set (dropWhile isWhiteSpace s). isWhiteSpace c"
    by (simp add: trim_def)
  have "dropWhile isWhiteSpace s = []"
  proof (rule ccontr)
    assume ne: "dropWhile isWhiteSpace s \<noteq> []"
    then have "\<not> isWhiteSpace (hd (dropWhile isWhiteSpace s))"
      by (rule hd_dropWhile)
    moreover have "hd (dropWhile isWhiteSpace s) \<in> set (dropWhile isWhiteSpace s)"
      using ne by simp
    ultimately show False using all by blast
  qed
  then show "whitespace_only s"
    by (simp add: whitespace_only_def)
next
  assume "whitespace_only s"
  then have "dropWhile isWhiteSpace s = []"
    by (simp add: whitespace_only_def)
  then show "trim s = []"
    by (metis trim_def dropWhile.simps(1) rev.simps(1))
qed

lemma nonblank_Str: "nonblank (Str e) = Inr (\<not> whitespace_only e)"
  by (auto simp: trim_empty_iff whitespace_only_def)

lemma filter_js_strings:
  "\<forall>v \<in> set vs. \<exists>e. v = Str e \<Longrightarrow>
     filter_js nonblank vs = Return (filter (\<lambda>v. \<not> whitespace_only (toString v)) vs)"
proof (induction vs)
  case Nil
  show ?case by simp
next
  case (Cons v vs)
  then obtain e where "v = Str e" by auto
  with Cons show ?case
    by (simp add: nonblank_Str del: nonblank.simps)
qed

lemma filter_js_throws:
  "\<exists>v \<in> set vs. v = Null \<or> v = Undefined \<Longrightarrow> \<exists>msg. filter_js nonblank vs = Throw (TypeError msg)"
proof (induction vs)
  case Nil
  then show ?case by simp
next
  case (Cons v vs)
  show ?case
  proof (cases v)
    case (Str e)
    with Cons.prems have "\<exists>v \<in> set vs. v = Null \<or> v = Undefined" by auto
    from Cons.IH [OF this] obtain msg where "filter_js nonblank vs = Throw (TypeError msg)" ..
    with Str show ?thesis by simp
  qed simp_all
qed

lemma chat_after_query:
  assumes "generateVectorEmbeddings C question s = (Return e, s1)"
    and "call (getOrCreateCollection C) s1 = (Return (), s2)"
    and "call (collection_query C e 3) s2 = (Return (first # rest), s3)"
  shows "chat C question s =
    await (sync (filter_js nonblank (map md_body first))) (\<lambda>body.
      await (sync (filter_js nonblank (map md_url first))) (\<lambda>url.
        await (call (completions_create C [system_message, user_message question url body]))
          (\<lambda>choices.
            (case choices of
               [] \<Rightarrow> throws (TypeError ''Cannot read properties of undefined (reading message)'')
             | answer # _ \<Rightarrow>
                 console_log (Chat_reply answer (case url of [] \<Rightarrow> Undefined | u # _ \<Rightarrow> u)))))) s3"
  unfolding chat_def
  by (simp add: await_Return [where m = "generateVectorEmbeddings C question", OF assms(1)]
      await_Return [where m = "call (getOrCreateCollection C)", OF assms(2)]
      await_Return [where m = "call (collection_query C e 3)", OF assms(3)])

lemma echo_embedding:
  "generateVectorEmbeddings (echo_collab found) question s = (Return [1], s)"
  by (simp add: generateVectorEmbeddings_def await_def call_def echo_collab_def chroma_collab_def
      returns_def)

lemma echo_collection:
  "call (getOrCreateCollection (echo_collab found)) s = (Return (), s)"
  by (simp add: call_def echo_collab_def chroma_collab_def chroma_getOrCreateCollection_def)

lemma echo_query:
  "call (collection_query (echo_collab found) e n) s = (Return found, s)"
  by (simp add: call_def echo_collab_def chroma_collab_def)

lemma echo_completion:
  "call (completions_create (echo_collab found) [m1, m2]) s = (Return [content m2], s)"
  by (simp add: call_def echo_collab_def chroma_collab_def)

lemma blank_space: "whitespace_only (utf16 '' '')" "\<not> whitespace_only (utf16 ''http://a'')"
  by (simp_all add: whitespace_only_def utf16_def isWhiteSpace_def)

text \<open>
  C6, as stated: \<^verbatim>\<open>chat\<close> drops the records whose body is empty or whitespace-only, and the
  URL list of the user message holds the urls of the records that are kept. The query
  answers one record with the body \<^verbatim>\<open>" "\<close> and the url \<^verbatim>\<open>"http://a"\<close>: the body list is empty,
  and the URL list, in the message and on the console, still holds \<^verbatim>\<open>"http://a"\<close>.
\<close>

theorem url_of_blank_body_counterexample:
  "filter_js nonblank
     (map md_body [\<lparr>md_url = Str (utf16 ''http://a''), md_body = Str (utf16 '' ''),
                    md_head = Undefined, md_chunkIndex = 0\<rparr>]) = Return [] \<and>
   filter_js nonblank
     (map md_url [\<lparr>md_url = Str (utf16 ''http://a''), md_body = Str (utf16 '' ''),
                   md_head = Undefined, md_chunkIndex = 0\<rparr>]) = Return [Str (utf16 ''http://a'')] \<and>
   chat (echo_collab [[\<lparr>md_url = Str (utf16 ''http://a''), md_body = Str (utf16 '' ''),
                         md_head = Undefined, md_chunkIndex = 0\<rparr>]])
     (utf16 ''Who?'') \<lparr>world = \<lparr>store = [], ext = ()\<rparr>, console = []\<rparr> =
     (Return (),
      \<lparr>world = \<lparr>store = [], ext = ()\<rparr>,
       console = [Chat_reply (content (user_message (utf16 ''Who?'') [Str (utf16 ''http://a'')] []))
                    (Str (utf16 ''http://a''))]\<rparr>)"
  by (simp add: chat_def await_def sync_def echo_embedding echo_collection echo_query
      echo_completion console_log_def nonblank_Str blank_space del: nonblank.simps)

text \<open>
  C6, amended: when the body and the url of every record that the query answers are
  strings, \<^verbatim>\<open>chat\<close> calls the generative service with the system message and a user message
  built from two lists, each filtered on its own field and in retrieval order: the bodies
  that are not empty or whitespace-only, and the urls that are not empty or
  whitespace-only. Both are joined with \<^verbatim>\<open>", "\<close> in the message.
\<close>

theorem chat_filters_each_list_on_its_own_field:
  fixes first :: "metadata list" and question :: jsstring
  assumes "generateVectorEmbeddings C question s = (Return e, s1)"
    and "call (getOrCreateCollection C) s1 = (Return (), s2)"
    and "call (collection_query C e 3) s2 = (Return (first # rest), s3)"
    and "\<forall>m \<in> set first. \<exists>b u. md_body m = Str b \<and> md_url m = Str u"
  defines "body \<equiv> filter (\<lambda>v. \<not> whitespace_only (toString v)) (map md_body first)"
  defines "url \<equiv> filter (\<lambda>v. \<not> whitespace_only (toString v)) (map md_url first)"
  shows "chat C question s =
      await (call (completions_create C [system_message, user_message question url body]))
        (\<lambda>choices.
          (case choices of
             [] \<Rightarrow> throws (TypeError ''Cannot read properties of undefined (reading message)'')
           | answer # _ \<Rightarrow>
               console_log (Chat_reply answer (case url of [] \<Rightarrow> Undefined | u # _ \<Rightarrow> u)))) s3
    \<and> content (user_message question url body) =
        utf16 ''Query: '' @ question @ [0x0A, 0x0A, 0x0A] @ replicate 17 0x20
        @ utf16 ''URl: '' @ join url @ [0x0A, 0x0A, 0x0A] @ replicate 17 0x20
        @ utf16 ''Retrieved conext: '' @ join body"
proof
  have b: "filter_js nonblank (map md_body first) = Return body"
    unfolding body_def using assms(4) by (intro filter_js_strings) auto
  have u: "filter_js nonblank (map md_url first) = Return url"
    unfolding url_def using assms(4) by (intro filter_js_strings) auto
  show "chat C question s =
      await (call (completions_create C [system_message, user_message question url body]))
        (\<lambda>choices.
          (case choices of
             [] \<Rightarrow> throws (TypeError ''Cannot read properties of undefined (reading message)'')
           | answer # _ \<Rightarrow>
               console_log (Chat_reply answer (case url of [] \<Rightarrow> Undefined | u # _ \<Rightarrow> u)))) s3"
    by (simp add: chat_after_query [OF assms(1-3)] b u await_def sync_def)
  show "content (user_message question url body) =
        utf16 ''Query: '' @ question @ [0x0A, 0x0A, 0x0A] @ replicate 17 0x20
        @ utf16 ''URl: '' @ join url @ [0x0A, 0x0A, 0x0A] @ replicate 17 0x20
        @ utf16 ''Retrieved conext: '' @ join body"
    by (simp add: user_message_def)
qed

theorem chat_filters_each_list_on_its_own_field_witness:
  "generateVectorEmbeddings
     (echo_collab [[\<lparr>md_url = Str (utf16 ''http://a''), md_body = Str (utf16 '' ''),
                     md_head = Undefined, md_chunkIndex = 0\<rparr>]])
     (utf16 ''Who?'') \<lparr>world = \<lparr>store = [], ext = ()\<rparr>, console = []\<rparr>
     = (Return [1], \<lparr>world = \<lparr>store = [], ext = ()\<rparr>, console = []\<rparr>) \<and>
   chat (echo_collab [[\<lparr>md_url = Str (utf16 ''http://a''), md_body = Str (utf16 '' ''),
                         md_head = Undefined, md_chunkIndex = 0\<rparr>]])
     (utf16 ''Who?'') \<lparr>world = \<lparr>store = [], ext = ()\<rparr>, console = []\<rparr> =
     (Return (),
      \<lparr>world = \<lparr>store = [], ext = ()\<rparr>,
       console = [Chat_reply (content (user_message (utf16 ''Who?'') [Str (utf16 ''http://a'')] []))
                    (Str (utf16 ''http://a''))]\<rparr>)"
proof -
  let ?r = "\<lparr>md_url = Str (utf16 ''http://a''), md_body = Str (utf16 '' ''),
             md_head = Undefined, md_chunkIndex = 0\<rparr>"
  let ?s = "\<lparr>world = \<lparr>store = [], ext = ()\<rparr>, console = []\<rparr> :: unit state"
  have strings: "\<forall>m \<in> set [?r]. \<exists>b u. md_body m = Str b \<and> md_url m = Str u"
    by simp
  have e: "generateVectorEmbeddings (echo_collab [[?r]]) (utf16 ''Who?'') ?s = (Return [1], ?s)"
    by (rule echo_embedding)
  have c: "call (getOrCreateCollection (echo_collab [[?r]])) ?s = (Return (), ?s)"
    by (rule echo_collection)
  have q: "call (collection_query (echo_collab [[?r]]) [1] 3) ?s = (Return [[?r]], ?s)"
    by (rule echo_query)
  from chat_filters_each_list_on_its_own_field [OF e c q strings]
  show ?thesis
    by (simp add: echo_embedding blank_space await_def echo_completion console_log_def)
qed

text \<open>
  C10. Both filter predicates call \<^verbatim>\<open>e.trim()\<close> before they test \<^verbatim>\<open>!!e\<close>: when the query answers
  a record whose body or url is \<^verbatim>\<open>null\<close> or \<^verbatim>\<open>undefined\<close>, \<^verbatim>\<open>chat\<close> throws a TypeError, in the
  state in which the query has answered, and the generative service is not called.
\<close>

theorem chat_TypeError_on_missing_field:
  assumes "generateVectorEmbeddings C question s = (Return e, s1)"
    and "call (getOrCreateCollection C) s1 = (Return (), s2)"
    and "call (collection_query C e 3) s2 = (Return (first # rest), s3)"
    and "\<exists>m \<in> set first. md_body m = Null \<or> md_body m = Undefined
                          \<or> md_url m = Null \<or> md_url m = Undefined"
  shows "\<exists>msg. chat C question s = (Throw (TypeError msg), s3)"
proof (cases "\<exists>m \<in> set first. md_body m = Null \<or> md_body m = Undefined")
  case True
  then have "\<exists>v \<in> set (map md_body first). v = Null \<or> v = Undefined"
    by auto
  from filter_js_throws [OF this] obtain msg where
    "filter_js nonblank (map md_body first) = Throw (TypeError msg)" ..
  then show ?thesis
    by (simp add: chat_after_query [OF assms(1-3)] await_def sync_def)
next
  case False
  then have "\<forall>v \<in> set (map md_body first). \<exists>b. v = Str b"
    by (auto intro: jsval.exhaust)
  from filter_js_strings [OF this] obtain body where
    b: "filter_js nonblank (map md_body first) = Return body" ..
  from False assms(4) have "\<exists>v \<in> set (map md_url first). v = Null \<or> v = Undefined"
    by auto
  from filter_js_throws [OF this] obtain msg where
    "filter_js nonblank (map md_url first) = Throw (TypeError msg)" ..
  with b show ?thesis
    by (simp add: chat_after_query [OF assms(1-3)] await_def sync_def)
qed

theorem chat_TypeError_on_missing_field_witness:
  "call (collection_query
      (echo_collab [[\<lparr>md_url = Str (utf16 ''http://a''), md_body = Null,
                      md_head = Undefined, md_chunkIndex = 0\<rparr>]]) [1] 3)
     \<lparr>world = \<lparr>store = [], ext = ()\<rparr>, console = []\<rparr>
     = (Return [[\<lparr>md_url = Str (utf16 ''http://a''), md_body = Null,
                   md_head = Undefined, md_chunkIndex = 0\<rparr>]],
        \<lparr>world = \<lparr>store = [], ext = ()\<rparr>, console = []\<rparr>) \<and>
   (\<exists>msg. chat (echo_collab [[\<lparr>md_url = Str (utf16 ''http://a''), md_body = Null,
                                 md_head = Undefined, md_chunkIndex = 0\<rparr>]])
            (utf16 ''Who?'') \<lparr>world = \<lparr>store = [], ext = ()\<rparr>, console = []\<rparr>
          = (Throw (TypeError msg), \<lparr>world = \<lparr>store = [], ext = ()\<rparr>, console = []\<rparr>))"
proof -
  let ?r = "\<lparr>md_url = Str (utf16 ''http://a''), md_body = Null,
             md_head = Undefined, md_chunkIndex = 0\<rparr>"
  let ?s = "\<lparr>world = \<lparr>store = [], ext = ()\<rparr>, console = []\<rparr> :: unit state"
  have missing: "\<exists>m \<in> set [?r]. md_body m = Null \<or> md_body m = Undefined
                          \<or> md_url m = Null \<or> md_url m = Undefined"
    by simp
  have e: "generateVectorEmbeddings (echo_collab [[?r]]) (utf16 ''Who?'') ?s = (Return [1], ?s)"
    by (rule echo_embedding)
  have c: "call (getOrCreateCollection (echo_collab [[?r]])) ?s = (Return (), ?s)"
    by (rule echo_collection)
  have q: "call (collection_query (echo_collab [[?r]]) [1] 3) ?s = (Return [[?r]], ?s)"
    by (rule echo_query)
  from chat_TypeError_on_missing_field [OF e c q missing]
  show ?thesis
    by (simp add: echo_query)
qed

end
